theory Spec2Isabelle
  imports
    Complex_Main
    "HOL-Library.Multiset"
    "HOL-Library.Char_ord"
    "HOL-Library.List_Lexorder"
    "HOL-Library.Product_Lexorder"
begin

section \<open>Data model\<close>

text \<open>
  The balance computation of the dashboard screen (\<^verbatim>\<open>app/(tabs)/dashboard.tsx\<close>), its copy
  in the settle-up screen (\<^verbatim>\<open>app/settle-up.tsx\<close>) and the payment link builder
  (\<^verbatim>\<open>lib/paymentUtils\<close>).

  A JavaScript \<^verbatim>\<open>number\<close> is modelled as an exact rational: rounding of binary floating
  point is outside the model, so the statements below keep every sum in the order in
  which the code adds. A value that leaves the model is an error value: a quotient that is
  no finite number (division by zero gives an infinity or NaN in JavaScript), and a string
  or NaN stored in \<^verbatim>\<open>friendDebts\<close> where a number belongs.
\<close>

type_synonym number = rat

datatype error = NonFinite | NotANumber

text \<open>\<^verbatim>\<open>interface FriendBalance { name: string; amount: number }\<close>\<close>

record FriendBalance =
  name :: string
  amount :: number

text \<open>
  \<^verbatim>\<open>interface Expense { id; title; amount; date; paidBy; splitWith }\<close> of
  \<^verbatim>\<open>contexts/ExpenseContext.tsx\<close>. The field \<^verbatim>\<open>id\<close> is written \<open>id'\<close>.
\<close>

record Expense =
  id' :: string
  title :: string
  amount :: number
  date :: string
  paidBy :: string
  splitWith :: "string list"

text \<open>The literal \<^verbatim>\<open>'You'\<close> that the screens compare participant names with.\<close>

definition You :: string where
  "You = ''You''"

record Summary =
  totalSpent :: number
  youPaid :: number
  youOwe :: number
  youAreOwed :: number
  netBalance :: number

section \<open>JavaScript containers\<close>

text \<open>
  \<^verbatim>\<open>Set<string>\<close>: the elements in insertion order; \<^verbatim>\<open>add\<close> of an element already
  present changes nothing, and \<^verbatim>\<open>Array.from\<close> lists the elements in that order.
\<close>

type_synonym string_set = "string list"

definition set_add :: "string_set \<Rightarrow> string \<Rightarrow> string_set" where
  "set_add s x = (if x \<in> set s then s else s @ [x])"

text \<open>
  \<^verbatim>\<open>const friendDebts: Record<string, number> = {}\<close> is a plain object: the list of its own
  properties in the order of their creation, with \<^verbatim>\<open>Object.prototype\<close> behind it.
\<close>

type_synonym debts = "(string \<times> number) list"

definition ownProperty :: "debts \<Rightarrow> string \<Rightarrow> number option" where
  "ownProperty d k = map_of d k"

text \<open>
  The names that \<^verbatim>\<open>Object.prototype\<close> defines. \<^verbatim>\<open>__proto__\<close> is an accessor, whose getter
  returns the prototype and whose setter ignores a value that is no object; the others
  are functions in writable data properties.
\<close>

definition protoName :: string where
  "protoName = ''__proto__''"

definition objectPrototypeNames :: "string list" where
  "objectPrototypeNames =
     [''__proto__'', ''constructor'', ''hasOwnProperty'', ''isPrototypeOf'',
      ''propertyIsEnumerable'', ''toLocaleString'', ''toString'', ''valueOf'',
      ''__defineGetter__'', ''__defineSetter__'', ''__lookupGetter__'', ''__lookupSetter__'']"

text \<open>
  \<^verbatim>\<open>friendDebts[k]\<close> read: the own property if there is one, else what the prototype has
  under that name (an object or a function, \<open>Object\<close> below), else \<^verbatim>\<open>undefined\<close>.
\<close>

datatype js_value = Undefined | Number number | Object

definition getProp :: "debts \<Rightarrow> string \<Rightarrow> js_value" where
  "getProp d k =
     (case ownProperty d k of
        Some v \<Rightarrow> Number v
      | None \<Rightarrow> if k \<in> set objectPrototypeNames then Object else Undefined)"

text \<open>
  \<^verbatim>\<open>friendDebts[k] = v\<close> for a number \<open>v\<close>: an own property is overwritten in its place;
  without one, the name \<^verbatim>\<open>__proto__\<close> reaches the setter of the prototype, which ignores a
  number, and any other name becomes a new own property at the end.
\<close>

fun updateProp :: "debts \<Rightarrow> string \<Rightarrow> number \<Rightarrow> debts" where
  "updateProp [] k v = [(k, v)]"
| "updateProp ((k', v') # d) k v =
     (if k' = k then (k, v) # d else (k', v') # updateProp d k v)"

definition setProp :: "debts \<Rightarrow> string \<Rightarrow> number \<Rightarrow> debts" where
  "setProp d k v =
     (if ownProperty d k = None \<and> k = protoName then d else updateProp d k v)"

text \<open>
  \<^verbatim>\<open>friendDebts[k] || 0\<close>: \<^verbatim>\<open>undefined\<close> gives 0, a number gives itself (0 is falsy and
  gives 0 as well), an object is truthy and stays.
\<close>

fun orZero :: "js_value \<Rightarrow> js_value" where
  "orZero Undefined = Number 0"
| "orZero (Number v) = Number v"
| "orZero Object = Object"

text \<open>
  \<^verbatim>\<open>x + share\<close> and \<^verbatim>\<open>x - share\<close>: a number for a number \<open>x\<close>; for an object the sum is
  a string and the difference is NaN, \<open>None\<close> below.
\<close>

fun plusNumber :: "js_value \<Rightarrow> number \<Rightarrow> number option" where
  "plusNumber (Number a) s = Some (a + s)"
| "plusNumber Undefined s = None"
| "plusNumber Object s = None"

fun minusNumber :: "js_value \<Rightarrow> number \<Rightarrow> number option" where
  "minusNumber (Number a) s = Some (a - s)"
| "minusNumber Undefined s = None"
| "minusNumber Object s = None"

text \<open>
  \<^verbatim>\<open>friendDebts[k] = x\<close> for the value of such an expression. A string or NaN is a
  primitive, which the setter of \<^verbatim>\<open>__proto__\<close> ignores too; stored under any other name it
  leaves the model.
\<close>

fun assign :: "debts \<Rightarrow> string \<Rightarrow> number option \<Rightarrow> error + debts" where
  "assign d k (Some a) = Inr (setProp d k a)"
| "assign d k None =
     (if ownProperty d k = None \<and> k = protoName then Inr d else Inl NotANumber)"

text \<open>
  \<^verbatim>\<open>Object.entries\<close> and \<^verbatim>\<open>Object.values\<close> enumerate the properties whose name is an array
  index (a canonical decimal numeral below \<open>2^32 - 1\<close>) first, in ascending numeric order,
  then every other property in creation order.
\<close>

definition isDigit :: "char \<Rightarrow> bool" where
  "isDigit c = (CHR ''0'' \<le> c \<and> c \<le> CHR ''9'')"

definition indexValue :: "string \<Rightarrow> int" where
  "indexValue s = fold (\<lambda>c n. 10 * n + (of_char c - 48)) s 0"

definition isArrayIndex :: "string \<Rightarrow> bool" where
  "isArrayIndex s =
     (s \<noteq> [] \<and> list_all isDigit s \<and> (length s = 1 \<or> hd s \<noteq> CHR ''0'')
      \<and> indexValue s < 4294967295)"

definition objectEntries :: "debts \<Rightarrow> (string \<times> number) list" where
  "objectEntries d =
     sort_key (\<lambda>(k, v). indexValue k) (filter (\<lambda>(k, v). isArrayIndex k) d)
     @ filter (\<lambda>(k, v). \<not> isArrayIndex k) d"

definition objectValues :: "debts \<Rightarrow> number list" where
  "objectValues d = map snd (objectEntries d)"

text \<open>
  \<^verbatim>\<open>Array.prototype.sort(compareFn)\<close> is a stable sort: an element goes before the first
  one it does not compare greater than. For a consistent comparator the result does not
  depend on the algorithm of the host.
\<close>

fun insertBy :: "('a \<Rightarrow> 'a \<Rightarrow> int) \<Rightarrow> 'a \<Rightarrow> 'a list \<Rightarrow> 'a list" where
  "insertBy c x [] = [x]"
| "insertBy c x (y # ys) = (if c x y \<le> 0 then x # y # ys else y # insertBy c x ys)"

definition sortBy :: "('a \<Rightarrow> 'a \<Rightarrow> int) \<Rightarrow> 'a list \<Rightarrow> 'a list" where
  "sortBy c xs = foldr (insertBy c) xs []"

text \<open>A loop over a list whose body may fail stops at the first failure.\<close>

fun forEachE :: "('a \<Rightarrow> 's \<Rightarrow> error + 's) \<Rightarrow> 'a list \<Rightarrow> 's \<Rightarrow> error + 's" where
  "forEachE f [] s = Inr s"
| "forEachE f (x # xs) s = (case f x s of Inl e \<Rightarrow> Inl e | Inr s' \<Rightarrow> forEachE f xs s')"

text \<open>\<^verbatim>\<open>amount / n\<close> for a length \<open>n\<close>: no finite number when \<open>n\<close> is 0.\<close>

definition divide_number :: "number \<Rightarrow> nat \<Rightarrow> error + number" where
  "divide_number a n = (if n = 0 then Inl NonFinite else Inr (a / of_nat n))"

section \<open>Dashboard screen\<close>

text \<open>\<^verbatim>\<open>getUniqueFriends\<close>: the participants of all expenses other than \<^verbatim>\<open>'You'\<close>.\<close>

definition addParticipants :: "Expense \<Rightarrow> string_set \<Rightarrow> string_set" where
  "addParticipants expense participants =
     fold (\<lambda>person p. if person \<noteq> You then set_add p person else p)
       (splitWith expense)
       (if paidBy expense \<noteq> You then set_add participants (paidBy expense) else participants)"

definition getUniqueFriends :: "Expense list \<Rightarrow> string list" where
  "getUniqueFriends expenses = fold addParticipants expenses []"

text \<open>\<^verbatim>\<open>friends.forEach(friend => { friendDebts[friend] = 0; })\<close> on the empty record.\<close>

definition initDebts :: "string list \<Rightarrow> debts" where
  "initDebts friends = fold (\<lambda>friend d. setProp d friend 0) friends []"

text \<open>The body of \<^verbatim>\<open>expenses.forEach\<close> in the \<^verbatim>\<open>friendBalances\<close> memo of the dashboard.\<close>

definition dashboard_processExpense :: "Expense \<Rightarrow> debts \<Rightarrow> error + debts" where
  "dashboard_processExpense expense friendDebts =
     (let numberOfParticipants = length (splitWith expense) in
      if numberOfParticipants = 0 then Inr friendDebts
      else case divide_number (Expense.amount expense) numberOfParticipants of
        Inl e \<Rightarrow> Inl e
      | Inr share \<Rightarrow>
          if paidBy expense = You then
            forEachE (\<lambda>person d.
                if person \<noteq> You
                then assign d person (plusNumber (orZero (getProp d person)) share)
                else Inr d)
              (splitWith expense) friendDebts
          else
            (let payer = paidBy expense in
             if You \<in> set (splitWith expense)
             then assign friendDebts payer
                    (minusNumber (orZero (getProp friendDebts payer)) share)
             else Inr friendDebts))"

text \<open>The record \<^verbatim>\<open>friendDebts\<close> of the \<^verbatim>\<open>friendBalances\<close> memo when its loops are done.\<close>

definition dashboard_friendDebts :: "Expense list \<Rightarrow> error + debts" where
  "dashboard_friendDebts expenses =
     forEachE dashboard_processExpense expenses (initDebts (getUniqueFriends expenses))"

text \<open>
  The entries with \<^verbatim>\<open>Math.abs(amount) > 0.01\<close> are pushed to \<^verbatim>\<open>balances\<close>, which is then
  sorted with \<^verbatim>\<open>a.name.localeCompare(b.name)\<close>. \<^verbatim>\<open>localeCompare\<close> belongs to the host: it is
  the parameter \<open>localeCompare\<close> of the model.
\<close>

definition pushBalances :: "(string \<times> number) list \<Rightarrow> FriendBalance list" where
  "pushBalances entries =
     fold (\<lambda>(name, amount) balances.
             if \<bar>amount\<bar> > 1 / 100
             then balances @ [\<lparr>name = name, amount = amount\<rparr>]
             else balances)
       entries []"

definition dashboard_friendBalances ::
  "(string \<Rightarrow> string \<Rightarrow> int) \<Rightarrow> Expense list \<Rightarrow> error + FriendBalance list" where
  "dashboard_friendBalances localeCompare expenses =
     (case dashboard_friendDebts expenses of
        Inl e \<Rightarrow> Inl e
      | Inr friendDebts \<Rightarrow>
          Inr (sortBy (\<lambda>a b. localeCompare (name a) (name b))
                 (pushBalances (objectEntries friendDebts))))"

text \<open>
  The \<^verbatim>\<open>summaryData\<close> memo. Its loop carries \<^verbatim>\<open>totalSpent\<close>, \<^verbatim>\<open>youPaid\<close> and its own
  \<^verbatim>\<open>friendDebts\<close>; \<^verbatim>\<open>totalSpent\<close> is updated before the test for an empty \<^verbatim>\<open>splitWith\<close>,
  \<^verbatim>\<open>youPaid\<close> after it.
\<close>

definition summary_processExpense ::
  "Expense \<Rightarrow> number \<times> number \<times> debts \<Rightarrow> error + number \<times> number \<times> debts" where
  "summary_processExpense expense st =
     (case st of (totalSpent0, youPaid0, friendDebts) \<Rightarrow>
      let totalSpent1 = totalSpent0 + Expense.amount expense;
          numberOfParticipants = length (splitWith expense) in
      if numberOfParticipants = 0 then Inr (totalSpent1, youPaid0, friendDebts)
      else case divide_number (Expense.amount expense) numberOfParticipants of
        Inl e \<Rightarrow> Inl e
      | Inr share \<Rightarrow>
          if paidBy expense = You then
            (case forEachE (\<lambda>person d.
                     if person \<noteq> You
                     then assign d person (plusNumber (orZero (getProp d person)) share)
                     else Inr d)
                   (splitWith expense) friendDebts of
               Inl e \<Rightarrow> Inl e
             | Inr friendDebts1 \<Rightarrow>
                 Inr (totalSpent1, youPaid0 + Expense.amount expense, friendDebts1))
          else
            (let payer = paidBy expense in
             if You \<in> set (splitWith expense)
             then (case assign friendDebts payer
                          (minusNumber (orZero (getProp friendDebts payer)) share) of
                     Inl e \<Rightarrow> Inl e
                   | Inr friendDebts1 \<Rightarrow> Inr (totalSpent1, youPaid0, friendDebts1))
             else Inr (totalSpent1, youPaid0, friendDebts)))"

text \<open>
  \<^verbatim>\<open>Object.values(friendDebts).forEach\<close>: the state is
  \<open>(totalYouOwe, totalYouAreOwed)\<close>.
\<close>

definition addToTotals :: "number \<Rightarrow> number \<times> number \<Rightarrow> number \<times> number" where
  "addToTotals amount' tot =
     (case tot of (totalYouOwe, totalYouAreOwed) \<Rightarrow>
        if amount' > 0 then (totalYouOwe, totalYouAreOwed + amount')
        else (totalYouOwe + \<bar>amount'\<bar>, totalYouAreOwed))"

definition summaryData :: "Expense list \<Rightarrow> error + Summary" where
  "summaryData expenses =
     (let friends = getUniqueFriends expenses in
      case forEachE summary_processExpense expenses (0, 0, initDebts friends) of
        Inl e \<Rightarrow> Inl e
      | Inr (totalSpent1, youPaid1, friendDebts) \<Rightarrow>
          (case fold addToTotals (objectValues friendDebts) (0, 0) of
             (totalYouOwe, totalYouAreOwed) \<Rightarrow>
               Inr \<lparr>totalSpent = totalSpent1, youPaid = youPaid1, youOwe = totalYouOwe,
                    youAreOwed = totalYouAreOwed,
                    netBalance = totalYouAreOwed - totalYouOwe\<rparr>))"

section \<open>Settle-up screen\<close>

text \<open>
  The \<^verbatim>\<open>friendBalances\<close> memo of \<^verbatim>\<open>app/settle-up.tsx\<close>: the participants are collected
  in the memo itself, then the same three loops follow.
\<close>

definition settleUp_participants :: "Expense list \<Rightarrow> string_set" where
  "settleUp_participants expenses =
     fold (\<lambda>expense participants.
             fold (\<lambda>person p. if person \<noteq> You then set_add p person else p)
               (splitWith expense)
               (if paidBy expense \<noteq> You then set_add participants (paidBy expense)
                else participants))
       expenses []"

definition settleUp_processExpense :: "Expense \<Rightarrow> debts \<Rightarrow> error + debts" where
  "settleUp_processExpense expense friendDebts =
     (let numberOfParticipants = length (splitWith expense) in
      if numberOfParticipants = 0 then Inr friendDebts
      else case divide_number (Expense.amount expense) numberOfParticipants of
        Inl e \<Rightarrow> Inl e
      | Inr share \<Rightarrow>
          if paidBy expense = You then
            forEachE (\<lambda>person d.
                if person \<noteq> You
                then assign d person (plusNumber (orZero (getProp d person)) share)
                else Inr d)
              (splitWith expense) friendDebts
          else
            (let payer = paidBy expense in
             if You \<in> set (splitWith expense)
             then assign friendDebts payer
                    (minusNumber (orZero (getProp friendDebts payer)) share)
             else Inr friendDebts))"

definition settleUp_friendBalances ::
  "(string \<Rightarrow> string \<Rightarrow> int) \<Rightarrow> Expense list \<Rightarrow> error + FriendBalance list" where
  "settleUp_friendBalances localeCompare expenses =
     (let friends = settleUp_participants expenses;
          friendDebts0 = fold (\<lambda>friend d. setProp d friend 0) friends [] in
      case forEachE settleUp_processExpense expenses friendDebts0 of
        Inl e \<Rightarrow> Inl e
      | Inr friendDebts \<Rightarrow>
          Inr (sortBy (\<lambda>a b. localeCompare (name a) (name b))
                 (fold (\<lambda>(name, amount) balances.
                          if \<bar>amount\<bar> > 1 / 100
                          then balances @ [\<lparr>name = name, amount = amount\<rparr>]
                          else balances)
                    (objectEntries friendDebts) [])))"

section \<open>Payment links\<close>

text \<open>
  \<^verbatim>\<open>handlePaymentRedirect\<close> of \<^verbatim>\<open>lib/paymentUtils\<close>. The host supplies the printing of a
  number in a template literal, \<^verbatim>\<open>encodeURIComponent\<close>, \<^verbatim>\<open>Platform.OS\<close> and the answers
  of \<^verbatim>\<open>Linking\<close>; a rejected promise of \<^verbatim>\<open>Linking\<close> is \<open>None\<close> or \<open>False\<close> below and
  ends in the \<^verbatim>\<open>catch\<close> block. The result is the sequence of calls made to the host.
\<close>

datatype payment_type = cashapp | venmo

record PaymentInfo =
  type' :: payment_type
  username :: string
  amount :: "number option"
  note' :: "string option"

record host =
  numberToString :: "number \<Rightarrow> string"
  encodeURIComponent :: "string \<Rightarrow> string"
  platformIsWeb :: bool
  canOpenURL :: "string \<Rightarrow> bool option"
  openURLSucceeds :: "string \<Rightarrow> bool"

datatype host_call =
    WindowOpen string
  | CanOpenURL string
  | OpenURL string
  | ConsoleError

text \<open>\<^verbatim>\<open>username.replace(/[^a-zA-Z0-9@$]/g, '')\<close>\<close>

definition keptChar :: "char \<Rightarrow> bool" where
  "keptChar c =
     ((CHR ''a'' \<le> c \<and> c \<le> CHR ''z'') \<or> (CHR ''A'' \<le> c \<and> c \<le> CHR ''Z'')
      \<or> (CHR ''0'' \<le> c \<and> c \<le> CHR ''9'') \<or> c = CHR ''@'' \<or> c = CHR ''$'')"

definition cleanUsername :: "string \<Rightarrow> string" where
  "cleanUsername u = filter keptChar u"

text \<open>\<^verbatim>\<open>s.replace('@', '')\<close> with a string pattern removes the first occurrence only.\<close>

definition replaceAt :: "string \<Rightarrow> string" where
  "replaceAt s = remove1 (CHR ''@'') s"

text \<open>A number is truthy unless it is 0, a string unless it is empty; an absent field is falsy.\<close>

fun truthyNumber :: "number option \<Rightarrow> bool" where
  "truthyNumber None = False"
| "truthyNumber (Some a) = (a \<noteq> 0)"

fun truthyString :: "string option \<Rightarrow> bool" where
  "truthyString None = False"
| "truthyString (Some s) = (s \<noteq> [])"

definition webUrl :: "host \<Rightarrow> PaymentInfo \<Rightarrow> string" where
  "webUrl h info =
     (let clean = cleanUsername (username info) in
      case type' info of
        cashapp \<Rightarrow>
          ''https://cash.app/'' @ clean
          @ (if truthyNumber (PaymentInfo.amount info)
             then ''/'' @ numberToString h (the (PaymentInfo.amount info)) else [])
      | venmo \<Rightarrow>
          ''https://venmo.com/'' @ replaceAt clean
          @ (if truthyNumber (PaymentInfo.amount info)
             then ''?txn=pay&amount='' @ numberToString h (the (PaymentInfo.amount info))
             else []))"

definition schemeUrl :: "host \<Rightarrow> PaymentInfo \<Rightarrow> string" where
  "schemeUrl h info =
     (let clean = cleanUsername (username info) in
      case type' info of
        cashapp \<Rightarrow>
          ''cashapp://cash.app/'' @ clean
          @ (if truthyNumber (PaymentInfo.amount info)
             then ''/'' @ numberToString h (the (PaymentInfo.amount info)) else [])
      | venmo \<Rightarrow>
          ''venmo://paycharge?txn=pay&recipients='' @ replaceAt clean
          @ (if truthyNumber (PaymentInfo.amount info)
             then ''&amount='' @ numberToString h (the (PaymentInfo.amount info)) else [])
          @ (if truthyString (note' info)
             then ''&note='' @ encodeURIComponent h (the (note' info)) else []))"

definition handlePaymentRedirect :: "host \<Rightarrow> PaymentInfo \<Rightarrow> host_call list" where
  "handlePaymentRedirect h info =
     (if platformIsWeb h then [WindowOpen (webUrl h info)]
      else case canOpenURL h (schemeUrl h info) of
        None \<Rightarrow> [CanOpenURL (schemeUrl h info), ConsoleError]
      | Some canOpen \<Rightarrow>
          (let url = (if canOpen then schemeUrl h info else webUrl h info) in
           [CanOpenURL (schemeUrl h info), OpenURL url]
           @ (if openURLSucceeds h url then [] else [ConsoleError])))"

section \<open>Vocabulary of the statements\<close>

text \<open>The balance recorded for a name in \<^verbatim>\<open>friendDebts\<close>: 0 when the record has none.\<close>

definition runningBalance :: "debts \<Rightarrow> string \<Rightarrow> number" where
  "runningBalance d k = (case ownProperty d k of Some v \<Rightarrow> v | None \<Rightarrow> 0)"

text \<open>
  A consistent comparator, as \<^verbatim>\<open>sort\<close> requires of its argument: any two elements are
  comparable, and the order is transitive.
\<close>

definition consistentCompare :: "('a \<Rightarrow> 'a \<Rightarrow> int) \<Rightarrow> bool" where
  "consistentCompare c =
     ((\<forall>a b. c a b \<le> 0 \<or> c b a \<le> 0)
      \<and> (\<forall>a b d. c a b \<le> 0 \<longrightarrow> c b d \<le> 0 \<longrightarrow> c a d \<le> 0))"

text \<open>
  Two comparators to instantiate \<open>localeCompare\<close> with. The first is the plain
  lexicographic comparison of the code units.
\<close>

definition codeUnitCompare :: "string \<Rightarrow> string \<Rightarrow> int" where
  "codeUnitCompare a b = (if a < b then - 1 else if a = b then 0 else 1)"

text \<open>
  The second is an alphabetical collation, the way a locale-aware comparison orders names
  of ASCII letters: the letters are compared without their case first, and on a tie a
  lower-case letter precedes its capital.
\<close>

definition isUpper :: "char \<Rightarrow> bool" where
  "isUpper c = (CHR ''A'' \<le> c \<and> c \<le> CHR ''Z'')"

definition toLower :: "char \<Rightarrow> char" where
  "toLower c = (if isUpper c then char_of (of_char c + (32::nat)) else c)"

definition collationKey :: "string \<Rightarrow> string \<times> bool list" where
  "collationKey s = (map toLower s, map isUpper s)"

definition alphabeticalCompare :: "string \<Rightarrow> string \<Rightarrow> int" where
  "alphabeticalCompare a b =
     (if collationKey a < collationKey b then - 1
      else if collationKey a = collationKey b then 0 else 1)"

text \<open>An expense given by the fields that the computation reads.\<close>

definition expense :: "number \<Rightarrow> string \<Rightarrow> string list \<Rightarrow> Expense" where
  "expense a p s = \<lparr>id' = [], title = [], amount = a, date = [], paidBy = p, splitWith = s\<rparr>"

text \<open>The URLs handed to the host by a sequence of calls.\<close>

fun urlOfCall :: "host_call \<Rightarrow> string list" where
  "urlOfCall (WindowOpen u) = [u]"
| "urlOfCall (CanOpenURL u) = [u]"
| "urlOfCall (OpenURL u) = [u]"
| "urlOfCall ConsoleError = []"

definition calledUrls :: "host_call list \<Rightarrow> string list" where
  "calledUrls calls = concat (map urlOfCall calls)"

text \<open>The part of a URL that comes from the username.\<close>

definition userPart :: "payment_type \<Rightarrow> string \<Rightarrow> string" where
  "userPart t u =
     (case t of cashapp \<Rightarrow> cleanUsername u | venmo \<Rightarrow> replaceAt (cleanUsername u))"

text \<open>Two hosts for examples: a browser, and a phone without the payment apps.\<close>

definition webHost :: host where
  "webHost = \<lparr>numberToString = (\<lambda>n. ''25''), encodeURIComponent = (\<lambda>s. s),
     platformIsWeb = True, canOpenURL = (\<lambda>u. Some False), openURLSucceeds = (\<lambda>u. True)\<rparr>"

definition phoneHost :: host where
  "phoneHost = \<lparr>numberToString = (\<lambda>n. ''25''), encodeURIComponent = (\<lambda>s. s),
     platformIsWeb = False, canOpenURL = (\<lambda>u. Some False), openURLSucceeds = (\<lambda>u. True)\<rparr>"

section \<open>Closed forms of the loops\<close>

text \<open>
  In the memos every name that the loops write is an own property of \<^verbatim>\<open>friendDebts\<close>
  since the initialisation, or is \<^verbatim>\<open>__proto__\<close>, which never becomes one. On such a record
  the loop bodies return a value (shown below), and each loop is a \<open>fold\<close> of the value
  its body returns. The definitions of this section name those values for the proofs;
  the claims are stated about the functions of the screens.
\<close>

text \<open>The share of an expense with at least one participant.\<close>

definition share :: "Expense \<Rightarrow> number" where
  "share e = Expense.amount e / of_nat (length (splitWith e))"

text \<open>One round of the inner \<^verbatim>\<open>splitWith.forEach\<close> of an expense paid by \<^verbatim>\<open>'You'\<close>.\<close>

definition creditOne :: "number \<Rightarrow> string \<Rightarrow> debts \<Rightarrow> debts" where
  "creditOne s p d =
     (if p = You \<or> (ownProperty d p = None \<and> p = protoName) then d
      else updateProp d p (runningBalance d p + s))"

definition creditAll :: "number \<Rightarrow> string list \<Rightarrow> debts \<Rightarrow> debts" where
  "creditAll s people d = fold (creditOne s) people d"

text \<open>The debit of the payer.\<close>

definition debitOne :: "number \<Rightarrow> string \<Rightarrow> debts \<Rightarrow> debts" where
  "debitOne s p d =
     (if ownProperty d p = None \<and> p = protoName then d
      else updateProp d p (runningBalance d p - s))"

text \<open>The record that the loop body returns.\<close>

definition afterExpense :: "Expense \<Rightarrow> debts \<Rightarrow> debts" where
  "afterExpense e d =
     (if splitWith e = [] then d
      else if paidBy e = You then creditAll (share e) (splitWith e) d
      else if You \<in> set (splitWith e) then debitOne (share e) (paidBy e) d
      else d)"

text \<open>The state that the loop body of \<^verbatim>\<open>summaryData\<close> returns.\<close>

definition summaryAfter ::
  "Expense \<Rightarrow> number \<times> number \<times> debts \<Rightarrow> number \<times> number \<times> debts" where
  "summaryAfter e st =
     (case st of (t, p, d) \<Rightarrow>
        (t + Expense.amount e,
         p + (if paidBy e = You \<and> splitWith e \<noteq> [] then Expense.amount e else 0),
         afterExpense e d))"

text \<open>What one expense adds to the balance recorded for a name.\<close>

definition contribution :: "Expense \<Rightarrow> string \<Rightarrow> number" where
  "contribution e k =
     (if splitWith e = [] \<or> k = You \<or> k = protoName then 0
      else if paidBy e = You then of_nat (count_list (splitWith e) k) * share e
      else if You \<in> set (splitWith e) \<and> k = paidBy e then - share e
      else 0)"

text \<open>The names an expense mentions, \<^verbatim>\<open>'You'\<close> apart.\<close>

definition friendsOf :: "Expense \<Rightarrow> string set" where
  "friendsOf e = (insert (paidBy e) (set (splitWith e))) - {You}"

text \<open>The record after the loop over all expenses.\<close>

definition finalDebts :: "Expense list \<Rightarrow> debts" where
  "finalDebts es = fold afterExpense es (initDebts (getUniqueFriends es))"

section \<open>Properties of the containers and of the loops\<close>

lemma You_not_protoName: "You \<noteq> protoName"
  by (simp add: You_def protoName_def)

lemma protoName_inherited: "protoName \<in> set objectPrototypeNames"
  by (simp add: protoName_def objectPrototypeNames_def)

lemma ownProperty_None_iff: "(ownProperty d k = None) = (k \<notin> fst ` set d)"
  by (simp add: ownProperty_def map_of_eq_None_iff)

lemma map_of_updateProp: "map_of (updateProp d k v) = (map_of d)(k \<mapsto> v)"
  by (induction d) (auto simp: fun_eq_iff)

lemma ownProperty_updateProp:
  "ownProperty (updateProp d k v) k' = (if k' = k then Some v else ownProperty d k')"
  by (simp add: ownProperty_def map_of_updateProp)

lemma keys_updateProp:
  "map fst (updateProp d k v) = (if k \<in> fst ` set d then map fst d else map fst d @ [k])"
proof (induction d)
  case Nil
  show ?case by simp
next
  case (Cons a d)
  obtain k' v' where a: "a = (k', v')" by (cases a)
  show ?case
  proof (cases "k' = k")
    case True
    then show ?thesis by (simp add: a)
  next
    case False
    then show ?thesis using Cons.IH by (simp add: a)
  qed
qed

lemma runningBalance_updateProp:
  "runningBalance (updateProp d k v) k' = (if k' = k then v else runningBalance d k')"
  by (simp add: runningBalance_def ownProperty_updateProp)

lemma runningBalance_keys_cong:
  "ownProperty d k = ownProperty d' k \<Longrightarrow> runningBalance d k = runningBalance d' k"
  by (simp add: runningBalance_def)

subsection \<open>One write\<close>

lemma credit_step:
  assumes "p = You \<or> p = protoName \<or> p \<in> fst ` set d"
  shows "(if p \<noteq> You then assign d p (plusNumber (orZero (getProp d p)) s) else Inr d)
           = Inr (creditOne s p d)"
proof (cases "ownProperty d p")
  case None
  with assms have "p = You \<or> p = protoName" by (simp add: ownProperty_None_iff)
  with None show ?thesis
    using You_not_protoName protoName_inherited
    by (auto simp: creditOne_def getProp_def)
next
  case (Some v)
  then show ?thesis
    by (simp add: creditOne_def getProp_def setProp_def runningBalance_def)
qed

lemma debit_step:
  assumes "p = protoName \<or> p \<in> fst ` set d"
  shows "assign d p (minusNumber (orZero (getProp d p)) s) = Inr (debitOne s p d)"
proof (cases "ownProperty d p")
  case None
  with assms have "p = protoName" by (simp add: ownProperty_None_iff)
  with None show ?thesis
    using protoName_inherited by (simp add: debitOne_def getProp_def)
next
  case (Some v)
  then show ?thesis
    by (simp add: debitOne_def getProp_def setProp_def runningBalance_def)
qed

lemma keys_creditOne:
  "p = You \<or> p = protoName \<or> p \<in> fst ` set d \<Longrightarrow> map fst (creditOne s p d) = map fst d"
  by (auto simp: creditOne_def keys_updateProp ownProperty_None_iff)

lemma keys_debitOne:
  "p = protoName \<or> p \<in> fst ` set d \<Longrightarrow> map fst (debitOne s p d) = map fst d"
  by (auto simp: debitOne_def keys_updateProp ownProperty_None_iff)

lemma runningBalance_creditOne:
  "protoName \<notin> fst ` set d \<Longrightarrow>
   runningBalance (creditOne s p d) k
     = runningBalance d k + (if k = p \<and> p \<noteq> You \<and> p \<noteq> protoName then s else 0)"
  by (auto simp: creditOne_def runningBalance_updateProp ownProperty_None_iff)

lemma runningBalance_debitOne:
  "protoName \<notin> fst ` set d \<Longrightarrow>
   runningBalance (debitOne s p d) k
     = runningBalance d k - (if k = p \<and> p \<noteq> protoName then s else 0)"
  by (force simp: debitOne_def runningBalance_updateProp ownProperty_None_iff)

lemma ownProperty_debitOne_other:
  "k \<noteq> p \<Longrightarrow> ownProperty (debitOne s p d) k = ownProperty d k"
  by (simp add: debitOne_def ownProperty_updateProp)

subsection \<open>The inner loop\<close>

lemma keys_image: "map fst d' = map fst d \<Longrightarrow> fst ` set d' = fst ` set d"
  by (metis list.set_map)

lemma forEachE_credit:
  "set people - {You, protoName} \<subseteq> fst ` set d \<Longrightarrow>
   forEachE (\<lambda>person d.
       if person \<noteq> You then assign d person (plusNumber (orZero (getProp d person)) s)
       else Inr d) people d
     = Inr (creditAll s people d)"
proof (induction people arbitrary: d)
  case Nil
  show ?case by (simp add: creditAll_def)
next
  case (Cons p ps)
  have p: "p = You \<or> p = protoName \<or> p \<in> fst ` set d"
    using Cons.prems by auto
  have "fst ` set (creditOne s p d) = fst ` set d"
    by (rule keys_image) (rule keys_creditOne[OF p])
  with Cons.prems have "set ps - {You, protoName} \<subseteq> fst ` set (creditOne s p d)"
    by auto
  from Cons.IH[OF this] credit_step[OF p, of s] show ?case
    by (simp add: creditAll_def)
qed

lemma keys_creditAll:
  "set people - {You, protoName} \<subseteq> fst ` set d \<Longrightarrow>
   map fst (creditAll s people d) = map fst d"
proof (induction people arbitrary: d)
  case Nil
  show ?case by (simp add: creditAll_def)
next
  case (Cons p ps)
  have p: "p = You \<or> p = protoName \<or> p \<in> fst ` set d"
    using Cons.prems by auto
  have k: "map fst (creditOne s p d) = map fst d"
    by (rule keys_creditOne[OF p])
  with Cons.prems have "set ps - {You, protoName} \<subseteq> fst ` set (creditOne s p d)"
    using keys_image[OF k] by auto
  from Cons.IH[OF this] k show ?case
    by (simp add: creditAll_def)
qed

lemma runningBalance_creditAll:
  "set people - {You, protoName} \<subseteq> fst ` set d \<Longrightarrow> protoName \<notin> fst ` set d \<Longrightarrow>
   runningBalance (creditAll s people d) k
     = runningBalance d k
       + (if k = You \<or> k = protoName then 0 else of_nat (count_list people k) * s)"
proof (induction people arbitrary: d)
  case Nil
  show ?case by (simp add: creditAll_def)
next
  case (Cons p ps)
  have p: "p = You \<or> p = protoName \<or> p \<in> fst ` set d"
    using Cons.prems by auto
  have k: "fst ` set (creditOne s p d) = fst ` set d"
    by (rule keys_image) (rule keys_creditOne[OF p])
  have sub: "set ps - {You, protoName} \<subseteq> fst ` set (creditOne s p d)"
    using Cons.prems k by auto
  have np: "protoName \<notin> fst ` set (creditOne s p d)"
    using Cons.prems k by simp
  have "runningBalance (creditAll s (p # ps) d) k
      = runningBalance (creditAll s ps (creditOne s p d)) k"
    by (simp add: creditAll_def)
  also have "\<dots> = runningBalance (creditOne s p d) k
      + (if k = You \<or> k = protoName then 0 else of_nat (count_list ps k) * s)"
    by (rule Cons.IH[OF sub np])
  also have "\<dots> = runningBalance d k
      + (if k = You \<or> k = protoName then 0 else of_nat (count_list (p # ps) k) * s)"
    using Cons.prems(2) by (auto simp: runningBalance_creditOne algebra_simps)
  finally show ?case .
qed

subsection \<open>One expense\<close>

lemma processExpense_cases:
  assumes "friendsOf e - {protoName} \<subseteq> fst ` set d"
  shows "set (splitWith e) - {You, protoName} \<subseteq> fst ` set d"
    and "paidBy e \<noteq> You \<Longrightarrow> paidBy e = protoName \<or> paidBy e \<in> fst ` set d"
  using assms by (auto simp: friendsOf_def)

lemma dashboard_processExpense_eq:
  assumes "friendsOf e - {protoName} \<subseteq> fst ` set d"
  shows "dashboard_processExpense e d = Inr (afterExpense e d)"
  using forEachE_credit[OF processExpense_cases(1)[OF assms]]
    debit_step[OF processExpense_cases(2)[OF assms]]
  by (simp add: dashboard_processExpense_def afterExpense_def divide_number_def share_def
      Let_def)

lemma settleUp_processExpense_eq:
  assumes "friendsOf e - {protoName} \<subseteq> fst ` set d"
  shows "settleUp_processExpense e d = Inr (afterExpense e d)"
  using forEachE_credit[OF processExpense_cases(1)[OF assms]]
    debit_step[OF processExpense_cases(2)[OF assms]]
  by (simp add: settleUp_processExpense_def afterExpense_def divide_number_def share_def
      Let_def)

lemma summary_processExpense_eq:
  assumes "friendsOf e - {protoName} \<subseteq> fst ` set d"
  shows "summary_processExpense e (t, p, d) = Inr (summaryAfter e (t, p, d))"
  using forEachE_credit[OF processExpense_cases(1)[OF assms]]
    debit_step[OF processExpense_cases(2)[OF assms]]
  by (simp add: summary_processExpense_def summaryAfter_def afterExpense_def
      divide_number_def share_def Let_def)

lemma keys_afterExpense:
  assumes "friendsOf e - {protoName} \<subseteq> fst ` set d"
  shows "map fst (afterExpense e d) = map fst d"
  using keys_creditAll[OF processExpense_cases(1)[OF assms]]
    keys_debitOne[OF processExpense_cases(2)[OF assms]]
  by (simp add: afterExpense_def)

lemma runningBalance_afterExpense:
  assumes "friendsOf e - {protoName} \<subseteq> fst ` set d" and "protoName \<notin> fst ` set d"
  shows "runningBalance (afterExpense e d) k = runningBalance d k + contribution e k"
  using runningBalance_creditAll[OF processExpense_cases(1)[OF assms(1)] assms(2)]
    runningBalance_debitOne[OF assms(2)] You_not_protoName
  by (auto simp: afterExpense_def contribution_def)

lemma afterExpense_empty: "splitWith e = [] \<Longrightarrow> afterExpense e d = d"
  by (simp add: afterExpense_def)

lemma contribution_empty: "splitWith e = [] \<Longrightarrow> contribution e k = 0"
  by (simp add: contribution_def)

subsection \<open>The loop over the expenses\<close>

lemma forEachE_closed:
  assumes "\<And>x s. x \<in> set xs \<Longrightarrow> I s \<Longrightarrow> f x s = Inr (g x s) \<and> I (g x s)" and "I s"
  shows "forEachE f xs s = Inr (fold g xs s) \<and> I (fold g xs s)"
  using assms by (induction xs arbitrary: s) auto

lemma loop_closed:
  assumes "\<And>e d. friendsOf e - {protoName} \<subseteq> fst ` set d \<Longrightarrow> f e d = Inr (afterExpense e d)"
    and "\<forall>e\<in>set es. friendsOf e - {protoName} \<subseteq> fst ` set d"
  shows "forEachE f es d = Inr (fold afterExpense es d)"
    and "map fst (fold afterExpense es d) = map fst d"
proof -
  let ?I = "\<lambda>d'. map fst d' = map fst d"
  have step: "f e d' = Inr (afterExpense e d') \<and> ?I (afterExpense e d')"
    if "e \<in> set es" "?I d'" for e d'
  proof -
    have "friendsOf e - {protoName} \<subseteq> fst ` set d'"
      using that assms(2) keys_image[OF that(2)] by auto
    then show ?thesis
      using assms(1) keys_afterExpense that(2) by simp
  qed
  from forEachE_closed[of es ?I f afterExpense d, OF step]
  show "forEachE f es d = Inr (fold afterExpense es d)"
    and "map fst (fold afterExpense es d) = map fst d"
    by simp_all
qed

lemma runningBalance_fold_afterExpense:
  "\<forall>e\<in>set es. friendsOf e - {protoName} \<subseteq> fst ` set d \<Longrightarrow> protoName \<notin> fst ` set d \<Longrightarrow>
   runningBalance (fold afterExpense es d) k
     = runningBalance d k + (\<Sum>e\<leftarrow>es. contribution e k)"
proof (induction es arbitrary: d)
  case Nil
  show ?case by simp
next
  case (Cons e es)
  have e: "friendsOf e - {protoName} \<subseteq> fst ` set d" using Cons.prems by simp
  have k: "fst ` set (afterExpense e d) = fst ` set d"
    by (rule keys_image) (rule keys_afterExpense[OF e])
  have "\<forall>e'\<in>set es. friendsOf e' - {protoName} \<subseteq> fst ` set (afterExpense e d)"
    using Cons.prems k by simp
  moreover have "protoName \<notin> fst ` set (afterExpense e d)"
    using Cons.prems k by simp
  ultimately have "runningBalance (fold afterExpense es (afterExpense e d)) k
      = runningBalance (afterExpense e d) k + (\<Sum>e\<leftarrow>es. contribution e k)"
    by (rule Cons.IH)
  then show ?case
    using runningBalance_afterExpense[OF e Cons.prems(2)] by (simp add: algebra_simps)
qed

lemma fold_summaryAfter:
  "fold summaryAfter es (t, p, d) =
     (t + sum_list (map Expense.amount es),
      p + sum_list (map Expense.amount
            (filter (\<lambda>e. paidBy e = You \<and> splitWith e \<noteq> []) es)),
      fold afterExpense es d)"
  by (induction es arbitrary: t p d) (simp_all add: summaryAfter_def algebra_simps)

lemma summary_loop_closed:
  assumes "\<forall>e\<in>set es. friendsOf e - {protoName} \<subseteq> fst ` set d"
  shows "forEachE summary_processExpense es (t, p, d) = Inr (fold summaryAfter es (t, p, d))"
proof -
  let ?I = "\<lambda>st. map fst (snd (snd st)) = map fst d"
  have step: "summary_processExpense e st = Inr (summaryAfter e st) \<and> ?I (summaryAfter e st)"
    if "e \<in> set es" "?I st" for e st
  proof -
    obtain t' p' d' where st: "st = (t', p', d')" by (cases st)
    have sub: "friendsOf e - {protoName} \<subseteq> fst ` set d'"
      using that assms keys_image[of d' d] by (auto simp: st)
    show ?thesis
      using summary_processExpense_eq[OF sub] keys_afterExpense[OF sub] that(2)
      by (simp add: st summaryAfter_def)
  qed
  from forEachE_closed[of es ?I summary_processExpense summaryAfter "(t, p, d)", OF step]
  show ?thesis by simp
qed

subsection \<open>The participants and the initial record\<close>

lemma set_set_add: "set (set_add s x) = insert x (set s)"
  by (auto simp: set_add_def)

lemma distinct_set_add: "distinct s \<Longrightarrow> distinct (set_add s x)"
  by (simp add: set_add_def)

lemma set_add_people:
  "set (fold (\<lambda>person p. if person \<noteq> You then set_add p person else p) people s)
     = set s \<union> (set people - {You})"
  by (induction people arbitrary: s) (auto simp: set_set_add)

lemma distinct_add_people:
  "distinct s \<Longrightarrow>
   distinct (fold (\<lambda>person p. if person \<noteq> You then set_add p person else p) people s)"
  by (induction people arbitrary: s) (auto simp: distinct_set_add)

lemma set_addParticipants: "set (addParticipants e s) = set s \<union> friendsOf e"
  by (auto simp: addParticipants_def set_add_people set_set_add friendsOf_def)

lemma distinct_addParticipants: "distinct s \<Longrightarrow> distinct (addParticipants e s)"
  by (simp add: addParticipants_def distinct_add_people distinct_set_add)

lemma set_fold_addParticipants:
  "set (fold addParticipants es s) = set s \<union> (\<Union>e\<in>set es. friendsOf e)"
  by (induction es arbitrary: s) (auto simp: set_addParticipants)

lemma distinct_fold_addParticipants:
  "distinct s \<Longrightarrow> distinct (fold addParticipants es s)"
  by (induction es arbitrary: s) (auto simp: distinct_addParticipants)

lemma set_getUniqueFriends: "set (getUniqueFriends es) = (\<Union>e\<in>set es. friendsOf e)"
  by (simp add: getUniqueFriends_def set_fold_addParticipants)

lemma distinct_getUniqueFriends: "distinct (getUniqueFriends es)"
  by (simp add: getUniqueFriends_def distinct_fold_addParticipants)

lemma You_notin_getUniqueFriends: "You \<notin> set (getUniqueFriends es)"
  by (simp add: set_getUniqueFriends friendsOf_def)

lemma setProp_fresh:
  "k \<notin> fst ` set d \<Longrightarrow> setProp d k v = (if k = protoName then d else d @ [(k, v)])"
proof -
  assume fresh: "k \<notin> fst ` set d"
  then have "updateProp d k v = d @ [(k, v)]"
    by (induction d) auto
  with fresh show ?thesis
    by (simp add: setProp_def ownProperty_None_iff)
qed

lemma fold_setProp_fresh:
  "distinct fs \<Longrightarrow> set fs \<inter> fst ` set d = {} \<Longrightarrow>
   fold (\<lambda>friend d. setProp d friend 0) fs d
     = d @ map (\<lambda>f. (f, 0)) (filter (\<lambda>f. f \<noteq> protoName) fs)"
proof (induction fs arbitrary: d)
  case Nil
  show ?case by simp
next
  case (Cons f fs)
  have fresh: "f \<notin> fst ` set d" using Cons.prems by auto
  let ?d = "setProp d f 0"
  have d': "?d = (if f = protoName then d else d @ [(f, 0)])"
    by (rule setProp_fresh[OF fresh])
  have "set fs \<inter> fst ` set ?d = {}"
    using Cons.prems by (auto simp: d')
  with Cons.IH[of ?d] Cons.prems show ?case
    by (simp add: d')
qed

lemma initDebts_eq:
  "distinct fs \<Longrightarrow> initDebts fs = map (\<lambda>f. (f, 0)) (filter (\<lambda>f. f \<noteq> protoName) fs)"
  using fold_setProp_fresh[of fs "[]"] by (simp add: initDebts_def)

lemma keys_initDebts:
  "distinct fs \<Longrightarrow> map fst (initDebts fs) = filter (\<lambda>f. f \<noteq> protoName) fs"
  by (simp add: initDebts_eq comp_def)

lemma runningBalance_initDebts: "distinct fs \<Longrightarrow> runningBalance (initDebts fs) k = 0"
  by (induction fs) (auto simp: initDebts_eq runningBalance_def ownProperty_def)

subsection \<open>The final record\<close>

lemma keys_initial:
  "map fst (initDebts (getUniqueFriends es))
     = filter (\<lambda>f. f \<noteq> protoName) (getUniqueFriends es)"
  by (simp add: keys_initDebts distinct_getUniqueFriends)

lemma keys_set_initial:
  "fst ` set (initDebts (getUniqueFriends es)) = set (getUniqueFriends es) - {protoName}"
proof -
  have "set (map fst (initDebts (getUniqueFriends es)))
      = set (filter (\<lambda>f. f \<noteq> protoName) (getUniqueFriends es))"
    by (simp only: keys_initial)
  then show ?thesis by auto
qed

lemma initial_ready:
  "\<forall>e\<in>set es. friendsOf e - {protoName} \<subseteq> fst ` set (initDebts (getUniqueFriends es))"
  by (auto simp: keys_set_initial set_getUniqueFriends)

lemma dashboard_friendDebts_eq: "dashboard_friendDebts es = Inr (finalDebts es)"
  unfolding dashboard_friendDebts_def finalDebts_def
  by (rule loop_closed(1)[OF dashboard_processExpense_eq initial_ready])

lemma keys_finalDebts:
  "map fst (finalDebts es) = filter (\<lambda>f. f \<noteq> protoName) (getUniqueFriends es)"
  unfolding finalDebts_def
  using loop_closed(2)[of dashboard_processExpense, OF dashboard_processExpense_eq initial_ready]
    keys_initial
  by simp

lemma keys_set_finalDebts:
  "fst ` set (finalDebts es) = set (getUniqueFriends es) - {protoName}"
proof -
  have "set (map fst (finalDebts es))
      = set (filter (\<lambda>f. f \<noteq> protoName) (getUniqueFriends es))"
    by (simp only: keys_finalDebts)
  then show ?thesis by auto
qed

lemma protoName_notin_finalDebts: "protoName \<notin> fst ` set (finalDebts es)"
  by (simp add: keys_set_finalDebts)

lemma You_notin_finalDebts: "You \<notin> fst ` set (finalDebts es)"
  by (simp add: keys_set_finalDebts You_notin_getUniqueFriends)

lemma runningBalance_finalDebts:
  "runningBalance (finalDebts es) k = (\<Sum>e\<leftarrow>es. contribution e k)"
proof -
  have "protoName \<notin> fst ` set (initDebts (getUniqueFriends es))"
    by (simp add: keys_set_initial)
  from runningBalance_fold_afterExpense[OF initial_ready this] show ?thesis
    by (simp add: finalDebts_def runningBalance_initDebts distinct_getUniqueFriends)
qed

lemma distinct_keys_finalDebts: "distinct (map fst (finalDebts es))"
  by (simp add: keys_finalDebts distinct_getUniqueFriends)

subsection \<open>Enumeration, filter and sort\<close>

lemma mset_objectEntries: "mset (objectEntries d) = mset d"
proof -
  have "mset (objectEntries d) =
      filter_mset (\<lambda>(k, v). isArrayIndex k) (mset d)
      + filter_mset (\<lambda>(k, v). \<not> isArrayIndex k) (mset d)"
    by (simp add: objectEntries_def)
  also have "\<dots> = mset d"
    by (simp add: case_prod_unfold)
  finally show ?thesis .
qed

lemma set_objectEntries: "set (objectEntries d) = set d"
  by (metis mset_objectEntries set_mset_mset)

lemma distinct_keys_objectEntries:
  "distinct (map fst d) \<Longrightarrow> distinct (map fst (objectEntries d))"
proof -
  assume a: "distinct (map fst d)"
  have "mset (map fst (objectEntries d)) = mset (map fst d)"
    by (metis mset_objectEntries mset_map)
  then show ?thesis using a by (metis mset_eq_imp_distinct_iff)
qed

lemma pushBalances_fold:
  "fold (\<lambda>(name, amount) balances.
             if \<bar>amount\<bar> > 1 / 100
             then balances @ [\<lparr>name = name, amount = amount\<rparr>]
             else balances) xs acc
   = acc @ map (\<lambda>(k, v). \<lparr>name = k, amount = v\<rparr>) (filter (\<lambda>(k, v). 1 / 100 < \<bar>v\<bar>) xs)"
  by (induction xs arbitrary: acc) auto

lemma pushBalances_eq:
  "pushBalances xs = map (\<lambda>(k, v). \<lparr>name = k, amount = v\<rparr>) (filter (\<lambda>(k, v). 1 / 100 < \<bar>v\<bar>) xs)"
  unfolding pushBalances_def using pushBalances_fold[of xs "[]"] by simp

lemma mset_insertBy: "mset (insertBy c x xs) = add_mset x (mset xs)"
  by (induction xs) auto

lemma mset_sortBy: "mset (sortBy c xs) = mset xs"
  by (induction xs) (auto simp: sortBy_def mset_insertBy)

lemma set_sortBy: "set (sortBy c xs) = set xs"
  by (metis mset_sortBy set_mset_mset)

lemma set_insertBy: "set (insertBy c x xs) = insert x (set xs)"
  by (induction xs) auto

lemma sorted_insertBy:
  "consistentCompare c \<Longrightarrow> sorted_wrt (\<lambda>a b. c a b \<le> 0) xs \<Longrightarrow>
   sorted_wrt (\<lambda>a b. c a b \<le> 0) (insertBy c x xs)"
proof (induction xs)
  case Nil
  show ?case by simp
next
  case (Cons y ys)
  have tot: "\<And>a b. c a b \<le> 0 \<or> c b a \<le> 0"
    and tr: "\<And>a b d. c a b \<le> 0 \<Longrightarrow> c b d \<le> 0 \<Longrightarrow> c a d \<le> 0"
    using Cons.prems(1) unfolding consistentCompare_def by blast+
  show ?case
  proof (cases "c x y \<le> 0")
    case True
    then have "\<forall>z\<in>set ys. c x z \<le> 0" using Cons.prems(2) tr by auto
    with True Cons.prems(2) show ?thesis by simp
  next
    case False
    then have yx: "c y x \<le> 0" using tot[of x y] by simp
    have "sorted_wrt (\<lambda>a b. c a b \<le> 0) (insertBy c x ys)"
      using Cons by simp
    with False yx Cons.prems(2) show ?thesis
      by (auto simp: set_insertBy)
  qed
qed

lemma sorted_sortBy:
  "consistentCompare c \<Longrightarrow> sorted_wrt (\<lambda>a b. c a b \<le> 0) (sortBy c xs)"
proof (induction xs)
  case Nil
  show ?case by (simp add: sortBy_def)
next
  case (Cons x xs)
  then have "sorted_wrt (\<lambda>a b. c a b \<le> 0) (insertBy c x (sortBy c xs))"
    by (simp add: sorted_insertBy)
  then show ?case by (simp add: sortBy_def)
qed

lemma consistent_codeUnitCompare: "consistentCompare codeUnitCompare"
  by (auto simp: consistentCompare_def codeUnitCompare_def)

lemma consistent_alphabeticalCompare: "consistentCompare alphabeticalCompare"
  by (auto simp: consistentCompare_def alphabeticalCompare_def)

lemma settleUp_participants_eq: "settleUp_participants es = getUniqueFriends es"
proof -
  have "(\<lambda>expense participants.
             fold (\<lambda>person p. if person \<noteq> You then set_add p person else p)
               (splitWith expense)
               (if paidBy expense \<noteq> You then set_add participants (paidBy expense)
                else participants)) = addParticipants"
    by (simp add: fun_eq_iff addParticipants_def)
  then show ?thesis
    by (simp add: settleUp_participants_def getUniqueFriends_def)
qed

lemma settleUp_friendDebts_eq:
  "forEachE settleUp_processExpense es
     (fold (\<lambda>friend d. setProp d friend 0) (settleUp_participants es) [])
   = Inr (finalDebts es)"
  unfolding settleUp_participants_eq finalDebts_def initDebts_def[symmetric]
  by (rule loop_closed(1)[OF settleUp_processExpense_eq initial_ready])

lemma dashboard_friendBalances_eq:
  "dashboard_friendBalances lc es =
     Inr (sortBy (\<lambda>a b. lc (name a) (name b)) (pushBalances (objectEntries (finalDebts es))))"
  by (simp add: dashboard_friendBalances_def dashboard_friendDebts_eq)

lemma settleUp_friendBalances_eq:
  "settleUp_friendBalances lc es =
     Inr (sortBy (\<lambda>a b. lc (name a) (name b)) (pushBalances (objectEntries (finalDebts es))))"
  by (simp add: settleUp_friendBalances_def settleUp_friendDebts_eq pushBalances_def)

subsection \<open>The summary\<close>

lemma fold_addToTotals:
  "fold addToTotals vs (ow, ad) =
     (fold (\<lambda>v acc. acc + \<bar>v\<bar>) (filter (\<lambda>v. \<not> 0 < v) vs) ow,
      fold (\<lambda>v acc. acc + v) (filter (\<lambda>v. 0 < v) vs) ad)"
  by (induction vs arbitrary: ow ad) (simp_all add: addToTotals_def)

lemma summaryData_eq:
  "summaryData es =
     Inr \<lparr>totalSpent = sum_list (map Expense.amount es),
          youPaid = sum_list (map Expense.amount
                      (filter (\<lambda>e. paidBy e = You \<and> splitWith e \<noteq> []) es)),
          youOwe = fold (\<lambda>v acc. acc + \<bar>v\<bar>)
                     (filter (\<lambda>v. \<not> 0 < v) (objectValues (finalDebts es))) 0,
          youAreOwed = fold (\<lambda>v acc. acc + v)
                         (filter (\<lambda>v. 0 < v) (objectValues (finalDebts es))) 0,
          netBalance = fold (\<lambda>v acc. acc + v)
                         (filter (\<lambda>v. 0 < v) (objectValues (finalDebts es))) 0
            - fold (\<lambda>v acc. acc + \<bar>v\<bar>)
                (filter (\<lambda>v. \<not> 0 < v) (objectValues (finalDebts es))) 0\<rparr>"
  by (simp add: summaryData_def summary_loop_closed[OF initial_ready] fold_summaryAfter
      fold_addToTotals finalDebts_def Let_def)

lemma mset_objectValues: "mset (objectValues d) = image_mset snd (mset d)"
  by (metis objectValues_def mset_map mset_objectEntries)

lemma mset_amounts_emitted:
  "mset (map FriendBalance.amount (sortBy c (pushBalances (objectEntries d))))
     = filter_mset (\<lambda>v. 1 / 100 < \<bar>v\<bar>) (image_mset snd (mset d))"
proof -
  have "mset (map FriendBalance.amount (sortBy c (pushBalances (objectEntries d))))
      = image_mset FriendBalance.amount (mset (pushBalances (objectEntries d)))"
    by (metis mset_map mset_sortBy)
  also have "\<dots> = image_mset FriendBalance.amount
      (image_mset (\<lambda>(k, v). \<lparr>name = k, amount = v\<rparr>)
         (filter_mset (\<lambda>(k, v). 1 / 100 < \<bar>v\<bar>) (mset d)))"
    by (simp only: pushBalances_eq mset_map mset_filter mset_objectEntries)
  also have "\<dots> = image_mset snd (filter_mset (\<lambda>(k, v). 1 / 100 < \<bar>v\<bar>) (mset d))"
    by (simp add: image_mset.compositionality comp_def case_prod_unfold)
  also have "\<dots> = filter_mset (\<lambda>v. 1 / 100 < \<bar>v\<bar>) (image_mset snd (mset d))"
    by (simp add: filter_mset_image_mset case_prod_unfold comp_def)
  finally show ?thesis .
qed

section \<open>The two screens\<close>

text \<open>
  Claim C9. The \<^verbatim>\<open>friendBalances\<close> memo of the settle-up screen and the one of the dashboard
  compute the same function: for every comparator of the host and every expense list they
  return the same list of \<open>(name, amount)\<close> entries in the same order.
\<close>

theorem friendBalances_screens_agree:
  "settleUp_friendBalances localeCompare expenses
     = dashboard_friendBalances localeCompare expenses"
  by (simp add: settleUp_friendBalances_eq dashboard_friendBalances_eq)

section \<open>Summary totals\<close>

text \<open>
  Claim C1, as amended. For every expense list \<^verbatim>\<open>summaryData\<close> returns a summary with
  \<open>netBalance = youAreOwed - youOwe\<close>, where \<open>youAreOwed\<close> is the sum of the positive
  balances of \<^verbatim>\<open>friendDebts\<close> and \<open>youOwe\<close> the sum of the absolute values of the others,
  each added up from 0 in the order in which \<^verbatim>\<open>Object.values\<close> enumerates the record, over
  all its counterparties, those of at most 0.01 included. The amounts of the emitted
  \<^verbatim>\<open>friendBalances\<close> list are, up to the order, the balances of the record above 0.01 in
  absolute value: the totals count balances that the list does not show.
\<close>

theorem summary_consistency:
  "\<exists>s d bs. summaryData expenses = Inr s
     \<and> dashboard_friendDebts expenses = Inr d
     \<and> dashboard_friendBalances localeCompare expenses = Inr bs
     \<and> netBalance s = youAreOwed s - youOwe s
     \<and> youAreOwed s = fold (\<lambda>v acc. acc + v) (filter (\<lambda>v. 0 < v) (objectValues d)) 0
     \<and> youOwe s = fold (\<lambda>v acc. acc + \<bar>v\<bar>) (filter (\<lambda>v. \<not> 0 < v) (objectValues d)) 0
     \<and> mset (map FriendBalance.amount bs)
         = filter_mset (\<lambda>v. 1 / 100 < \<bar>v\<bar>) (mset (objectValues d))"
proof -
  have "mset (map FriendBalance.amount
          (sortBy (\<lambda>a b. localeCompare (name a) (name b))
             (pushBalances (objectEntries (finalDebts expenses)))))
      = filter_mset (\<lambda>v. 1 / 100 < \<bar>v\<bar>) (mset (objectValues (finalDebts expenses)))"
    by (simp only: mset_amounts_emitted mset_objectValues)
  then show ?thesis
    by (simp add: summaryData_eq dashboard_friendDebts_eq dashboard_friendBalances_eq)
qed

text \<open>
  \<^verbatim>\<open>Maria\<close> owes 40 and \<^verbatim>\<open>Alex\<close> 17.5: \<open>youAreOwed\<close> is 57.5, and both are emitted.
\<close>

theorem summary_consistency_witness:
  "\<exists>s bs.
     summaryData [expense 120 ''You'' [''You'', ''Alex'', ''Maria''],
                  expense 45 ''Alex'' [''You'', ''Alex'']] = Inr s
     \<and> dashboard_friendDebts [expense 120 ''You'' [''You'', ''Alex'', ''Maria''],
                  expense 45 ''Alex'' [''You'', ''Alex'']]
         = Inr [(''Alex'', 35 / 2), (''Maria'', 40)]
     \<and> dashboard_friendBalances codeUnitCompare
           [expense 120 ''You'' [''You'', ''Alex'', ''Maria''],
            expense 45 ''Alex'' [''You'', ''Alex'']] = Inr bs
     \<and> youAreOwed s = 115 / 2 \<and> youOwe s = 0 \<and> netBalance s = 115 / 2
     \<and> mset (map FriendBalance.amount bs) = {#35 / 2, 40#}"
proof -
  let ?es = "[expense 120 ''You'' [''You'', ''Alex'', ''Maria''],
              expense 45 ''Alex'' [''You'', ''Alex'']]"
  have d: "dashboard_friendDebts ?es = Inr [(''Alex'', 35 / 2), (''Maria'', 40)]"
    by code_simp
  have s: "summaryData ?es = Inr \<lparr>totalSpent = 165, youPaid = 120, youOwe = 0,
      youAreOwed = 115 / 2, netBalance = 115 / 2\<rparr>"
    by code_simp
  have v: "objectValues [(''Alex'', 35 / 2), (''Maria'', 40)] = [35 / 2, 40]"
    by code_simp
  from summary_consistency[of ?es codeUnitCompare] show ?thesis
    unfolding d s by (auto simp: v)
qed

text \<open>
  The claim as first stated fails for one expense of 0.01 paid by \<^verbatim>\<open>'You'\<close> and split with
  one friend: the friend owes 0.005, which \<open>youAreOwed\<close> counts, and the emitted list is
  empty.
\<close>

theorem summary_consistency_counterexample:
  "summaryData [expense (1 / 100) ''You'' [''You'', ''Al'']]
     = Inr \<lparr>totalSpent = 1 / 100, youPaid = 1 / 100, youOwe = 0, youAreOwed = 1 / 200,
            netBalance = 1 / 200\<rparr>
   \<and> dashboard_friendBalances codeUnitCompare [expense (1 / 100) ''You'' [''You'', ''Al'']]
     = Inr []"
  by code_simp




section \<open>The rule for one expense\<close>

text \<open>
  For a name other than \<^verbatim>\<open>__proto__\<close> the rule is as the specification has it. On a record
  that holds every participant other than \<^verbatim>\<open>'You'\<close> and \<^verbatim>\<open>__proto__\<close>, as
  \<^verbatim>\<open>friendDebts\<close> does in the memos, an expense paid by \<^verbatim>\<open>'You'\<close> adds the share to the
  balance of such a name once for each of its occurrences in \<^verbatim>\<open>splitWith\<close>, and an expense
  paid by a friend and shared with \<^verbatim>\<open>'You'\<close> takes the share from the balance of the payer
  and leaves every other property alone.
\<close>

lemma count_list_distinct:
  "distinct xs \<Longrightarrow> x \<in> set xs \<Longrightarrow> count_list xs x = 1"
  by (induction xs) auto

lemma crediting_other_names:
  assumes "paidBy e = You" and "splitWith e \<noteq> []"
    and "set (splitWith e) - {You, protoName} \<subseteq> fst ` set d"
    and "protoName \<notin> fst ` set d"
  shows "\<exists>d'. dashboard_processExpense e d = Inr d' \<and> settleUp_processExpense e d = Inr d'
     \<and> (\<forall>k. k \<noteq> You \<longrightarrow> k \<noteq> protoName \<longrightarrow>
           runningBalance d' k = runningBalance d k
             + of_nat (count_list (splitWith e) k)
               * (Expense.amount e / of_nat (length (splitWith e))))
     \<and> (distinct (splitWith e) \<longrightarrow>
          (\<forall>k\<in>set (splitWith e). k \<noteq> You \<longrightarrow> k \<noteq> protoName \<longrightarrow>
             runningBalance d' k = runningBalance d k
               + Expense.amount e / of_nat (length (splitWith e))))"
proof -
  have sub: "friendsOf e - {protoName} \<subseteq> fst ` set d"
    using assms(1,3) by (auto simp: friendsOf_def)
  have c: "contribution e k = of_nat (count_list (splitWith e) k)
      * (Expense.amount e / of_nat (length (splitWith e)))"
    if "k \<noteq> You" "k \<noteq> protoName" for k
    using assms(1,2) that by (simp add: contribution_def share_def)
  have one: "count_list (splitWith e) k = 1"
    if "distinct (splitWith e)" "k \<in> set (splitWith e)" for k
    using that by (simp add: count_list_distinct)
  show ?thesis
    by (simp add: dashboard_processExpense_eq[OF sub] settleUp_processExpense_eq[OF sub]
        runningBalance_afterExpense[OF sub assms(4)] c one)
qed

lemma debit_other_payers:
  assumes "paidBy e \<noteq> You" and "paidBy e \<noteq> protoName" and "You \<in> set (splitWith e)"
    and "paidBy e \<in> fst ` set d"
  shows "\<exists>d'. summary_processExpense e (t, p, d) = Inr (t + Expense.amount e, p, d')
      \<and> dashboard_processExpense e d = Inr d'
      \<and> runningBalance d' (paidBy e)
          = runningBalance d (paidBy e) - Expense.amount e / of_nat (length (splitWith e))
      \<and> (\<forall>k. k \<noteq> paidBy e \<longrightarrow> ownProperty d' k = ownProperty d k)"
proof -
  have ne: "splitWith e \<noteq> []" using assms(3) by auto
  have step: "assign d (paidBy e) (minusNumber (orZero (getProp d (paidBy e))) (share e))
      = Inr (debitOne (share e) (paidBy e) d)"
    by (rule debit_step) (simp add: assms(4))
  have own: "ownProperty d (paidBy e) \<noteq> None"
    using assms(4) by (simp add: ownProperty_None_iff)
  have bal: "runningBalance (debitOne (share e) (paidBy e) d) (paidBy e)
      = runningBalance d (paidBy e) - share e"
    using own by (auto simp: debitOne_def runningBalance_updateProp)
  show ?thesis
    using assms(1,3) ne step bal
    by (simp add: summary_processExpense_def dashboard_processExpense_def divide_number_def
        Let_def share_def ownProperty_debitOne_other)
qed

text \<open>
  Claim C3. The claim holds of the code for every participant but one: a participant
  named \<^verbatim>\<open>__proto__\<close> is never credited. \<^verbatim>\<open>friendDebts\<close> is a plain object, so the
  assignment \<^verbatim>\<open>friendDebts['__proto__'] = ...\<close> reaches the setter of \<^verbatim>\<open>Object.prototype\<close>
  and stores nothing. For an expense of 30 paid by \<^verbatim>\<open>'You'\<close> and split between \<^verbatim>\<open>'You'\<close>
  and \<^verbatim>\<open>__proto__\<close>, the list of friends holds the name, the record stays empty on both
  screens where the claim has a balance of 15, and the same expense shared with \<^verbatim>\<open>Al\<close>
  records 15.
\<close>

theorem sentinel_paid_crediting_proto:
  "getUniqueFriends [expense 30 ''You'' [''You'', ''__proto__'']] = [''__proto__'']
   \<and> dashboard_friendDebts [expense 30 ''You'' [''You'', ''__proto__'']] = Inr []
   \<and> dashboard_processExpense (expense 30 ''You'' [''You'', ''__proto__'']) [] = Inr []
   \<and> settleUp_processExpense (expense 30 ''You'' [''You'', ''__proto__'']) [] = Inr []
   \<and> dashboard_friendBalances codeUnitCompare [expense 30 ''You'' [''You'', ''__proto__'']]
       = Inr []
   \<and> dashboard_friendBalances codeUnitCompare [expense 30 ''You'' [''You'', ''Al'']]
       = Inr [\<lparr>name = ''Al'', amount = 15\<rparr>]"
  by code_simp

text \<open>
  Claim C4. The claim holds of the code for every payer but one: when the payer is named
  \<^verbatim>\<open>__proto__\<close> and \<^verbatim>\<open>'You'\<close> is in \<^verbatim>\<open>splitWith\<close>, the assignment
  \<^verbatim>\<open>friendDebts[payer] = ...\<close> stores nothing, for the reason given under C3. For an
  expense of 60 paid by \<^verbatim>\<open>__proto__\<close> and split between \<^verbatim>\<open>'You'\<close> and \<^verbatim>\<open>__proto__\<close>, the
  record stays empty and \<open>youOwe\<close> is 0 where the claim has a debt of 30; the same expense
  paid by \<^verbatim>\<open>Al\<close> records 30.
\<close>

theorem friend_paid_rule_proto:
  "summary_processExpense (expense 60 ''__proto__'' [''You'', ''__proto__'']) (0, 0, [])
     = Inr (60, 0, [])
   \<and> summaryData [expense 60 ''__proto__'' [''You'', ''__proto__'']]
     = Inr \<lparr>totalSpent = 60, youPaid = 0, youOwe = 0, youAreOwed = 0, netBalance = 0\<rparr>
   \<and> dashboard_friendBalances codeUnitCompare
        [expense 60 ''__proto__'' [''You'', ''__proto__'']] = Inr []
   \<and> summaryData [expense 60 ''Al'' [''You'', ''Al'']]
     = Inr \<lparr>totalSpent = 60, youPaid = 0, youOwe = 30, youAreOwed = 0, netBalance = - 30\<rparr>"
  by code_simp

section \<open>The emitted list\<close>

lemma set_pushBalances:
  "set (pushBalances xs) = {\<lparr>name = k, amount = v\<rparr> | k v. (k, v) \<in> set xs \<and> 1 / 100 < \<bar>v\<bar>}"
  unfolding pushBalances_eq by force

lemma names_pushBalances:
  "map name (pushBalances xs) = map fst (filter (\<lambda>(k, v). 1 / 100 < \<bar>v\<bar>) xs)"
  unfolding pushBalances_eq by (induction xs) auto

lemma distinct_names_pushBalances:
  "distinct (map fst xs) \<Longrightarrow> distinct (map name (pushBalances xs))"
  unfolding names_pushBalances by (simp add: distinct_map_filter)

lemma distinct_names_sortBy:
  "distinct (map name xs) \<Longrightarrow> distinct (map name (sortBy c xs))"
  by (metis mset_sortBy mset_map mset_eq_imp_distinct_iff)

lemma ownProperty_iff:
  "distinct (map fst d) \<Longrightarrow> (ownProperty d k = Some v) = ((k, v) \<in> set d)"
  by (simp add: ownProperty_def)

lemma set_emitted:
  "set (sortBy c (pushBalances (objectEntries (finalDebts es))))
     = {\<lparr>name = k, amount = v\<rparr> | k v. ownProperty (finalDebts es) k = Some v \<and> 1 / 100 < \<bar>v\<bar>}"
  by (simp add: set_sortBy set_pushBalances set_objectEntries ownProperty_iff
      distinct_keys_finalDebts)

lemma distinct_emitted:
  "distinct (map name (sortBy c (pushBalances (objectEntries (finalDebts es)))))"
  by (simp add: distinct_names_sortBy distinct_names_pushBalances distinct_keys_objectEntries
      distinct_keys_finalDebts)

text \<open>
  Claim C5. For every expense list the \<^verbatim>\<open>friendBalances\<close> memo of the dashboard returns a
  list without repeated names whose entries are exactly the properties of the final
  \<^verbatim>\<open>friendDebts\<close> record with an absolute value strictly greater than 0.01, each name with
  its accumulated balance; a counterparty whose accumulated balance is 0 is not in it.
\<close>

theorem epsilon_suppression:
  "\<exists>d bs. dashboard_friendDebts expenses = Inr d
     \<and> dashboard_friendBalances localeCompare expenses = Inr bs
     \<and> distinct (map name bs)
     \<and> set bs = {\<lparr>name = k, amount = v\<rparr> | k v. ownProperty d k = Some v \<and> 1 / 100 < \<bar>v\<bar>}
     \<and> (\<forall>k. ownProperty d k = Some 0 \<longrightarrow> k \<notin> name ` set bs)"
proof -
  have "k \<notin> name ` set (sortBy c (pushBalances (objectEntries (finalDebts expenses))))"
    if "ownProperty (finalDebts expenses) k = Some 0" for k c
    using that unfolding set_emitted by auto
  then show ?thesis
    by (simp add: dashboard_friendDebts_eq dashboard_friendBalances_eq set_emitted
        distinct_emitted)
qed

text \<open>
  \<^verbatim>\<open>Al\<close> is credited 25 and debited 25 and disappears, \<^verbatim>\<open>Bo\<close> owes 30 and stays.
\<close>

theorem epsilon_suppression_witness:
  "dashboard_friendDebts [expense 50 ''You'' [''You'', ''Al''], expense 50 ''Al'' [''You'', ''Al''],
       expense 30 ''You'' [''Bo'']]
     = Inr [(''Al'', 0), (''Bo'', 30)]
   \<and> ownProperty [(''Al'', 0), (''Bo'', 30)] ''Al'' = Some 0
   \<and> dashboard_friendBalances codeUnitCompare
       [expense 50 ''You'' [''You'', ''Al''], expense 50 ''Al'' [''You'', ''Al''],
        expense 30 ''You'' [''Bo'']]
     = Inr [\<lparr>name = ''Bo'', amount = 30\<rparr>]
   \<and> ''Al'' \<notin> name ` set [\<lparr>name = ''Bo'', amount = 30\<rparr>]"
proof -
  let ?es = "[expense 50 ''You'' [''You'', ''Al''], expense 50 ''Al'' [''You'', ''Al''],
       expense 30 ''You'' [''Bo'']]"
  have d: "dashboard_friendDebts ?es = Inr [(''Al'', 0), (''Bo'', 30)]" by code_simp
  have b: "dashboard_friendBalances codeUnitCompare ?es = Inr [\<lparr>name = ''Bo'', amount = 30\<rparr>]"
    by code_simp
  have g: "ownProperty [(''Al'', 0), (''Bo'', 30)] ''Al'' = Some 0" by code_simp
  from epsilon_suppression[of ?es codeUnitCompare] g show ?thesis
    unfolding d b by auto
qed

text \<open>
  Claim C6, as amended. The emitted list is sorted in ascending order of the names under
  the comparison that the host's \<^verbatim>\<open>localeCompare\<close> implements, whenever that is a
  consistent comparator, on both screens. (For the comparison of code units this is the
  lexicographic order; a locale-aware collation orders names differently.)
\<close>

theorem friendBalances_sorted:
  "consistentCompare localeCompare \<Longrightarrow>
   \<exists>bs. dashboard_friendBalances localeCompare expenses = Inr bs
     \<and> settleUp_friendBalances localeCompare expenses = Inr bs
     \<and> sorted_wrt (\<lambda>a b. localeCompare (name a) (name b) \<le> 0) bs"
proof -
  assume "consistentCompare localeCompare"
  then have "consistentCompare (\<lambda>a b. localeCompare (name a) (name b))"
    unfolding consistentCompare_def by blast
  from sorted_sortBy[OF this] show ?thesis
    by (simp add: dashboard_friendBalances_eq settleUp_friendBalances_eq)
qed

text \<open>The counterparties \<^verbatim>\<open>Zed\<close>, \<^verbatim>\<open>Amy\<close>, \<^verbatim>\<open>Mo\<close> are returned as \<^verbatim>\<open>Amy\<close>, \<^verbatim>\<open>Mo\<close>, \<^verbatim>\<open>Zed\<close>.\<close>

theorem friendBalances_sorted_witness:
  "consistentCompare alphabeticalCompare
   \<and> dashboard_friendBalances alphabeticalCompare [expense 90 ''You'' [''Zed'', ''Amy'', ''Mo'']]
       = Inr [\<lparr>name = ''Amy'', amount = 30\<rparr>, \<lparr>name = ''Mo'', amount = 30\<rparr>,
              \<lparr>name = ''Zed'', amount = 30\<rparr>]
   \<and> sorted_wrt (\<lambda>a b. alphabeticalCompare (name a) (name b) \<le> 0)
        [\<lparr>name = ''Amy'', amount = 30\<rparr>, \<lparr>name = ''Mo'', amount = 30\<rparr>,
         \<lparr>name = ''Zed'', amount = 30\<rparr>]"
proof -
  let ?es = "[expense 90 ''You'' [''Zed'', ''Amy'', ''Mo'']]"
  have b: "dashboard_friendBalances alphabeticalCompare ?es
      = Inr [\<lparr>name = ''Amy'', amount = 30\<rparr>, \<lparr>name = ''Mo'', amount = 30\<rparr>,
             \<lparr>name = ''Zed'', amount = 30\<rparr>]"
    by code_simp
  from friendBalances_sorted[OF consistent_alphabeticalCompare, of ?es]
  show ?thesis
    unfolding b using consistent_alphabeticalCompare by auto
qed

text \<open>
  The claim as first stated names the ordinary lexicographic comparison. Under an
  alphabetical collation \<^verbatim>\<open>alex\<close> is returned before \<^verbatim>\<open>Bob\<close>, while \<^verbatim>\<open>Bob\<close> is the smaller
  string lexicographically (\<^verbatim>\<open>B\<close> is code unit 66, \<^verbatim>\<open>a\<close> is 97).
\<close>

theorem friendBalances_sorted_counterexample:
  "dashboard_friendBalances alphabeticalCompare [expense 90 ''You'' [''alex'', ''Bob'']]
     = Inr [\<lparr>name = ''alex'', amount = 45\<rparr>, \<lparr>name = ''Bob'', amount = 45\<rparr>]
   \<and> ''Bob'' < ''alex''"
  by code_simp

text \<open>
  Claim C8. For every expense list, no entry of the emitted list has the name \<^verbatim>\<open>'You'\<close>,
  wherever \<^verbatim>\<open>'You'\<close> occurs in the expenses.
\<close>

theorem sentinel_excluded:
  "\<exists>bs. dashboard_friendBalances localeCompare expenses = Inr bs
     \<and> settleUp_friendBalances localeCompare expenses = Inr bs
     \<and> You \<notin> name ` set bs"
proof -
  have "ownProperty (finalDebts expenses) You = None"
    by (simp add: ownProperty_None_iff You_notin_finalDebts)
  then have "You \<notin> name ` set (sortBy c (pushBalances (objectEntries (finalDebts expenses))))"
    for c
    unfolding set_emitted by auto
  then show ?thesis
    by (simp add: dashboard_friendBalances_eq settleUp_friendBalances_eq)
qed

section \<open>Totality\<close>

lemma processExpense_empty:
  assumes "splitWith e = []"
  shows "dashboard_processExpense e d = Inr d"
    and "settleUp_processExpense e d = Inr d"
    and "summary_processExpense e (t, p, d) = Inr (t + Expense.amount e, p, d)"
  using assms
  by (simp_all add: dashboard_processExpense_def settleUp_processExpense_def
      summary_processExpense_def)

text \<open>
  Claim C7. On every expense list the three memos return a value: the branch of the model
  that stands for a quotient that is no finite number is never taken, because the loop
  body returns before the division when \<^verbatim>\<open>splitWith\<close> is empty. An expense with an empty
  \<^verbatim>\<open>splitWith\<close> leaves \<^verbatim>\<open>friendDebts\<close> as it is, adds its amount to \<^verbatim>\<open>totalSpent\<close>, and
  anywhere in a list it changes no running balance of the final record and raises
  \<open>totalSpent\<close> by its amount.
\<close>

theorem balance_computation_total:
  "(\<exists>bs. dashboard_friendBalances localeCompare expenses = Inr bs)
   \<and> (\<exists>bs. settleUp_friendBalances localeCompare expenses = Inr bs)
   \<and> (\<exists>s. summaryData expenses = Inr s)
   \<and> (splitWith e = [] \<longrightarrow>
        dashboard_processExpense e d = Inr d
        \<and> settleUp_processExpense e d = Inr d
        \<and> summary_processExpense e (t, p, d) = Inr (t + Expense.amount e, p, d)
        \<and> (\<exists>d1 d2. dashboard_friendDebts (es1 @ e # es2) = Inr d1
              \<and> dashboard_friendDebts (es1 @ es2) = Inr d2
              \<and> (\<forall>k. runningBalance d1 k = runningBalance d2 k))
        \<and> (\<exists>s1 s2. summaryData (es1 @ e # es2) = Inr s1
              \<and> summaryData (es1 @ es2) = Inr s2
              \<and> totalSpent s1 = totalSpent s2 + Expense.amount e))"
  by (simp add: dashboard_friendBalances_eq settleUp_friendBalances_eq summaryData_eq
      processExpense_empty dashboard_friendDebts_eq runningBalance_finalDebts
      contribution_empty)

text \<open>An expense of 10 with nobody to split with, before an expense shared with \<^verbatim>\<open>Bo\<close>.\<close>

theorem balance_computation_total_witness:
  "splitWith (expense 10 ''Al'' []) = []
   \<and> dashboard_processExpense (expense 10 ''Al'' []) [(''Al'', 5)] = Inr [(''Al'', 5)]
   \<and> summary_processExpense (expense 10 ''Al'' []) (1, 2, [(''Al'', 5)])
        = Inr (11, 2, [(''Al'', 5)])
   \<and> dashboard_friendDebts [expense 10 ''Al'' [], expense 8 ''You'' [''Bo'', ''You'']]
        = Inr [(''Al'', 0), (''Bo'', 4)]
   \<and> dashboard_friendDebts [expense 8 ''You'' [''Bo'', ''You'']] = Inr [(''Bo'', 4)]
   \<and> runningBalance [(''Al'', 0), (''Bo'', 4)] ''Al'' = runningBalance [(''Bo'', 4)] ''Al''
   \<and> dashboard_friendBalances codeUnitCompare
        [expense 10 ''Al'' [], expense 8 ''You'' [''Bo'', ''You'']]
        = Inr [\<lparr>name = ''Bo'', amount = 4\<rparr>]"
proof -
  let ?e = "expense 10 ''Al'' []"
  let ?es = "[expense 8 ''You'' [''Bo'', ''You'']]"
  have ev: "splitWith ?e = []"
    "dashboard_processExpense ?e [(''Al'', 5)] = Inr [(''Al'', 5)]"
    "summary_processExpense ?e (1, 2, [(''Al'', 5)]) = Inr (11, 2, [(''Al'', 5)])"
    "dashboard_friendDebts (?e # ?es) = Inr [(''Al'', 0), (''Bo'', 4)]"
    "dashboard_friendDebts ?es = Inr [(''Bo'', 4)]"
    "runningBalance [(''Al'', 0), (''Bo'', 4)] ''Al'' = runningBalance [(''Bo'', 4)] ''Al''"
    "dashboard_friendBalances codeUnitCompare (?e # ?es) = Inr [\<lparr>name = ''Bo'', amount = 4\<rparr>]"
    by code_simp+
  show ?thesis
    using balance_computation_total[of codeUnitCompare "?e # ?es" ?e "[(''Al'', 5)]" 1 2 "[]" ?es]
    by (simp only: ev simp_thms)
qed

section \<open>The username in a payment link\<close>

lemma set_replaceAt: "set (replaceAt s) \<subseteq> set s"
  by (simp add: replaceAt_def set_remove1_subset)

lemma keptChar_userPart: "c \<in> set (userPart t u) \<Longrightarrow> keptChar c"
  using set_replaceAt[of "cleanUsername u"]
  by (cases t) (auto simp: userPart_def cleanUsername_def)

lemma webUrl_shape:
  "\<exists>pre suf. \<forall>u. webUrl h (info\<lparr>username := u\<rparr>) = pre @ userPart (type' info) u @ suf"
proof (cases "type' info")
  case cashapp
  then show ?thesis
    by (intro exI[of _ "''https://cash.app/''"]
        exI[of _ "if truthyNumber (PaymentInfo.amount info)
             then ''/'' @ numberToString h (the (PaymentInfo.amount info)) else []"])
      (simp add: webUrl_def userPart_def)
next
  case venmo
  then show ?thesis
    by (intro exI[of _ "''https://venmo.com/''"]
        exI[of _ "if truthyNumber (PaymentInfo.amount info)
             then ''?txn=pay&amount='' @ numberToString h (the (PaymentInfo.amount info))
             else []"])
      (simp add: webUrl_def userPart_def)
qed

lemma schemeUrl_shape:
  "\<exists>pre suf. \<forall>u. schemeUrl h (info\<lparr>username := u\<rparr>) = pre @ userPart (type' info) u @ suf"
proof (cases "type' info")
  case cashapp
  then show ?thesis
    by (intro exI[of _ "''cashapp://cash.app/''"]
        exI[of _ "if truthyNumber (PaymentInfo.amount info)
             then ''/'' @ numberToString h (the (PaymentInfo.amount info)) else []"])
      (simp add: schemeUrl_def userPart_def)
next
  case venmo
  then show ?thesis
    by (intro exI[of _ "''venmo://paycharge?txn=pay&recipients=''"]
        exI[of _ "(if truthyNumber (PaymentInfo.amount info)
             then ''&amount='' @ numberToString h (the (PaymentInfo.amount info)) else [])
          @ (if truthyString (note' info)
             then ''&note='' @ encodeURIComponent h (the (note' info)) else [])"])
      (simp add: schemeUrl_def userPart_def)
qed

lemma calledUrls_handlePaymentRedirect:
  "url \<in> set (calledUrls (handlePaymentRedirect h info)) \<Longrightarrow>
   url = webUrl h info \<or> url = schemeUrl h info"
  by (auto simp: calledUrls_def handlePaymentRedirect_def Let_def split: option.splits if_splits)

text \<open>
  Claim C10, as amended. For every username, every URL that \<^verbatim>\<open>handlePaymentRedirect\<close> hands
  to the host is the web URL or the deep link, and each of the two is a prefix and a suffix
  that do not depend on the username around the cleaned username: the characters of the
  username that are ASCII letters, digits, \<^verbatim>\<open>@\<close> or \<^verbatim>\<open>$\<close>, in their order, for Cash App, and
  the same with the first \<^verbatim>\<open>@\<close> removed for Venmo. No other character of the username
  reaches a URL.
\<close>

theorem payment_url_username:
  "(\<forall>url\<in>set (calledUrls (handlePaymentRedirect h info)).
      url = webUrl h info \<or> url = schemeUrl h info)
   \<and> (\<exists>pre suf. \<forall>u. webUrl h (info\<lparr>username := u\<rparr>) = pre @ userPart (type' info) u @ suf)
   \<and> (\<exists>pre suf. \<forall>u. schemeUrl h (info\<lparr>username := u\<rparr>) = pre @ userPart (type' info) u @ suf)
   \<and> (\<forall>c\<in>set (userPart t u). keptChar c)
   \<and> userPart cashapp u = filter keptChar u
   \<and> userPart venmo u = remove1 (CHR ''@'') (filter keptChar u)"
  using calledUrls_handlePaymentRedirect[of _ h info] webUrl_shape[of h info]
    schemeUrl_shape[of h info] keptChar_userPart[of _ t u]
  by (simp add: userPart_def cleanUsername_def replaceAt_def)

text \<open>A Cash App link on a phone without the app, and a Venmo handle.\<close>

theorem payment_url_username_witness:
  "handlePaymentRedirect phoneHost
      \<lparr>type' = cashapp, username = ''$ja ne/../x?'', amount = Some 25, note' = None\<rparr>
     = [CanOpenURL ''cashapp://cash.app/$janex/25'', OpenURL ''https://cash.app/$janex/25'']
   \<and> userPart cashapp ''$ja ne/../x?'' = ''$janex''
   \<and> userPart venmo ''@bo-b'' = ''bob''"
proof -
  let ?i = "\<lparr>type' = cashapp, username = ''$ja ne/../x?'', amount = Some 25, note' = None\<rparr>"
  have ev: "handlePaymentRedirect phoneHost ?i
     = [CanOpenURL ''cashapp://cash.app/$janex/25'', OpenURL ''https://cash.app/$janex/25'']"
    by (simp add: handlePaymentRedirect_def phoneHost_def webUrl_def schemeUrl_def
        cleanUsername_def keptChar_def)
  have k: "filter keptChar ''$ja ne/../x?'' = ''$janex''"
    "remove1 (CHR ''@'') (filter keptChar ''@bo-b'') = ''bob''"
    by (simp_all add: keptChar_def)
  have u: "userPart cashapp ''$ja ne/../x?'' = ''$janex''" "userPart venmo ''@bo-b'' = ''bob''"
    using payment_url_username[of phoneHost ?i cashapp "''$ja ne/../x?''"]
      payment_url_username[of phoneHost ?i venmo "''@bo-b''"]
    by (simp_all only: k)
  from ev u show ?thesis by (simp only: simp_thms)
qed

text \<open>
  The claim as first stated has \<^verbatim>\<open>@\<close> removed from the Venmo URLs. \<^verbatim>\<open>replace('@', '')\<close>
  removes one occurrence: the username \<^verbatim>\<open>@@bob\<close> gives a URL with an \<^verbatim>\<open>@\<close>.
\<close>

theorem payment_url_username_counterexample:
  "handlePaymentRedirect webHost
      \<lparr>type' = venmo, username = ''@@bob'', amount = None, note' = None\<rparr>
     = [WindowOpen ''https://venmo.com/@bob'']"
  by (simp add: handlePaymentRedirect_def webHost_def webUrl_def cleanUsername_def keptChar_def
      replaceAt_def)

end
